theory Spec2Isabelle
  imports Complex_Main "HOL-Library.Word"
begin

section \<open>JavaScript strings and arrays\<close>

text \<open>
  A JavaScript string is modelled as a \<^typ>\<open>string\<close>: a list of code units, each below 256.
  \<open>startsWith\<close> and \<open>str_includes\<close> are \<open>String.prototype.startsWith\<close> and
  \<open>String.prototype.includes\<close>.
\<close>

fun startsWith :: "'a list \<Rightarrow> 'a list \<Rightarrow> bool" where
  "startsWith s [] = True"
| "startsWith [] (p # ps) = False"
| "startsWith (c # s) (p # ps) = (c = p \<and> startsWith s ps)"

fun str_includes :: "'a list \<Rightarrow> 'a list \<Rightarrow> bool" where
  "str_includes [] t = (t = [])"
| "str_includes (c # s) t = (startsWith (c # s) t \<or> str_includes s t)"

text \<open>
  \<open>String.prototype.toLowerCase\<close> on code units below 256: the letters A to Z and the
  Latin-1 capitals U+00C0 to U+00DE (the multiplication sign U+00D7 apart) move up by 32.
\<close>

definition lower_char :: "char \<Rightarrow> char" where
  "lower_char c =
     (let n = (of_char c :: nat)
      in if (65 \<le> n \<and> n \<le> 90) \<or> (192 \<le> n \<and> n \<le> 222 \<and> n \<noteq> 215)
         then char_of (n + 32) else c)"

definition toLowerCase :: "string \<Rightarrow> string" where
  "toLowerCase s = map lower_char s"


section \<open>The context store (contextManager.ts)\<close>

datatype ctx_type = Zip | File | Directory


datatype ctx_status = Pending | Approved | Rejected


text \<open>
  \<open>ContextItem\<close>. The timestamps \<open>created\<close> and \<open>updated\<close> are ISO strings in the source,
  written by \<open>new Date().toISOString()\<close> and read back by \<open>new Date(s).getTime()\<close>; they are
  modelled by the millisecond count both agree on. \<open>metadata\<close> is an optional object,
  modelled as an optional list of key/value pairs in property order.
\<close>

record ContextItem =
  c_id :: string
  c_name :: string
  c_type :: ctx_type
  c_status :: ctx_status
  c_created :: int
  c_updated :: int
  c_size :: nat
  c_fileCount :: "nat option"
  c_metadata :: "(string \<times> string) list option"

record 'a ToolResult =
  success :: bool
  message :: string
  data :: "'a option"

text \<open>
  A JavaScript \<open>Map\<close> keeps insertion order: \<open>set\<close> on a present key replaces the value
  in place, on a new key it appends. Object properties behave the same way under the
  spread \<open>{...m, k: v}\<close>.
\<close>

fun map_get :: "('k \<times> 'v) list \<Rightarrow> 'k \<Rightarrow> 'v option" where
  "map_get [] k = None"
| "map_get ((k', v) # kvs) k = (if k' = k then Some v else map_get kvs k)"

fun map_set :: "('k \<times> 'v) list \<Rightarrow> 'k \<Rightarrow> 'v \<Rightarrow> ('k \<times> 'v) list" where
  "map_set [] k v = [(k, v)]"
| "map_set ((k', v') # kvs) k v = (if k' = k then (k, v) # kvs else (k', v') # map_set kvs k v)"

definition map_values :: "('k \<times> 'v) list \<Rightarrow> 'v list" where
  "map_values kvs = map snd kvs"

text \<open>
  The outcome of \<open>fs.writeFileSync\<close> on the contexts file is the environment's choice:
  it succeeds, or it throws with a message. The call opens the file with flag \<open>w\<close>, which
  truncates it, and then writes: a failure at the opening (a permission, a directory in the
  way) leaves the file as it was, a failure after it (a full disk, an I/O error) leaves
  the file empty or partial. The flag of \<open>IoFail\<close> says whether the file had been opened.
\<close>

datatype io = IoOk | IoFail string bool

text \<open>
  The contexts file: absent, holding the array last written, or torn by a failed write.
\<close>

datatype ctx_file = Absent | Written "ContextItem list" | Torn

text \<open>
  The store: the in-memory \<open>Map\<close>, the state of \<open>contexts.json\<close>, and the lines handed
  to the logger.
\<close>

record store =
  contexts :: "(string \<times> ContextItem) list"
  persisted :: ctx_file
  logged :: "(string \<times> string) list"

definition saveContexts :: "io \<Rightarrow> store \<Rightarrow> store" where
  "saveContexts w st =
     (case w of
        IoOk \<Rightarrow> st\<lparr>persisted := Written (map_values (contexts st))\<rparr>
      | IoFail msg opened \<Rightarrow>
          st\<lparr>persisted := (if opened then Torn else persisted st),
             logged := logged st @ [(''error'', ''Failed to save contexts'')]\<rparr>)"

record approve_args =
  context_id :: string
  approved :: bool
  reason :: "string option"

definition verdict :: "bool \<Rightarrow> string" where
  "verdict a = (if a then ''approved'' else ''rejected'')"

text \<open>
  \<open>markApproved\<close>. \<open>now\<close> is the clock read by \<open>new Date()\<close>. The test \<open>if (reason)\<close> is
  JavaScript truthiness: an absent and an empty reason both fail it. Nothing in the
  \<open>try\<close> block can throw (\<open>saveContexts\<close> catches its own error), so the \<open>catch\<close> branch
  of the source has no counterpart here. The \<open>duration\<close> field of the result is left out.
\<close>

definition markApproved :: "int \<Rightarrow> io \<Rightarrow> approve_args \<Rightarrow> store \<Rightarrow> store \<times> ContextItem ToolResult" where
  "markApproved now w args st =
     (case map_get (contexts st) (context_id args) of
        None \<Rightarrow>
          (st, \<lparr>success = False, message = ''Context not found: '' @ context_id args, data = None\<rparr>)
      | Some ctx \<Rightarrow>
          (let context1 = ctx\<lparr>c_status := (if approved args then Approved else Rejected),
                                  c_updated := now\<rparr>;
               context2 =
                 (case reason args of
                    None \<Rightarrow> context1
                  | Some r \<Rightarrow>
                      if r = [] then context1
                      else context1\<lparr>c_metadata :=
                             Some (map_set (case c_metadata context1 of None \<Rightarrow> [] | Some m \<Rightarrow> m)
                                     ''approvalReason'' r)\<rparr>);
               st1 = st\<lparr>contexts := map_set (contexts st) (context_id args) context2\<rparr>;
               st2 = saveContexts w st1;
               st3 = st2\<lparr>logged := logged st2 @ [(''info'', ''Context '' @ verdict (approved args))]\<rparr>
           in (st3, \<lparr>success = True,
                     message = ''Context '' @ verdict (approved args) @ '' successfully'',
                     data = Some context2\<rparr>)))"

text \<open>
  \<open>createContext\<close>. \<open>new_id\<close> is what \<open>uuidv4()\<close> returns; \<open>t1\<close> and \<open>t2\<close> are the two
  clock readings for \<open>created\<close> and \<open>updated\<close>.
\<close>

definition createContext ::
  "string \<Rightarrow> int \<Rightarrow> int \<Rightarrow> io \<Rightarrow> string \<Rightarrow> ctx_type \<Rightarrow> nat \<Rightarrow> nat option \<Rightarrow> store \<Rightarrow> store \<times> string" where
  "createContext new_id t1 t2 w name ty sz fileCount st =
     (let ctx = \<lparr>c_id = new_id, c_name = name, c_type = ty, c_status = Pending,
                      c_created = t1, c_updated = t2, c_size = sz, c_fileCount = fileCount,
                      c_metadata = None\<rparr>;
          st1 = st\<lparr>contexts := map_set (contexts st) (c_id ctx) ctx\<rparr>;
          st2 = saveContexts w st1;
          st3 = st2\<lparr>logged := logged st2 @ [(''info'', ''Context created'')]\<rparr>
      in (st3, c_id ctx))"

definition getContext :: "string \<Rightarrow> store \<Rightarrow> ContextItem option" where
  "getContext contextId st = map_get (contexts st) contextId"








text \<open>
  A run of the store: a sequence of \<open>create\<close> and \<open>approve\<close> calls, together with the ids
  the \<open>create\<close> calls returned.
\<close>

datatype store_op =
    OpCreate string int int io string ctx_type nat "nat option"
  | OpApprove int io approve_args

fun run_ops :: "store_op list \<Rightarrow> store \<Rightarrow> store \<times> string list" where
  "run_ops [] st = (st, [])"
| "run_ops (OpCreate new_id t1 t2 w name ty sz fc # ops) st =
     (case createContext new_id t1 t2 w name ty sz fc st of
        (st1, cid) \<Rightarrow> (case run_ops ops st1 of (st2, ids) \<Rightarrow> (st2, cid # ids)))"
| "run_ops (OpApprove now w args # ops) st =
     run_ops ops (fst (markApproved now w args st))"

section \<open>Strings, paths and the file system (Node.js)\<close>

text \<open>
  \<open>String.prototype.split\<close> on a one-character separator and \<open>Array.prototype.join\<close>.
  The split of the empty string is the list holding the empty string.
\<close>

fun split_on :: "char \<Rightarrow> string \<Rightarrow> string list" where
  "split_on d [] = [[]]"
| "split_on d (c # cs) =
     (if c = d then [] # split_on d cs
      else (case split_on d cs of [] \<Rightarrow> [[c]] | w # ws \<Rightarrow> (c # w) # ws))"

fun join_with :: "string \<Rightarrow> string list \<Rightarrow> string" where
  "join_with sep [] = []"
| "join_with sep [x] = x"
| "join_with sep (x # y # zs) = x @ sep @ join_with sep (y # zs)"

text \<open>
  A number in a template literal: the decimal digits of a natural number.
\<close>

fun show_nat :: "nat \<Rightarrow> string" where
  "show_nat n =
     (if n < 10 then [''0123456789'' ! n]
      else show_nat (n div 10) @ [''0123456789'' ! (n mod 10)])"

declare show_nat.simps [simp del]

definition quoted :: "string \<Rightarrow> string" where
  "quoted p = CHR 0x27 # p @ [CHR 0x27]"

text \<open>
  The POSIX flavour of Node's \<open>path\<close> module. \<open>path_basename\<close> is the last component, the
  trailing slashes dropped. \<open>path_extname\<close> is the part of that component from its last
  dot, and empty when the component has no dot, starts at its only candidate dot, or is
  \<open>..\<close>. \<open>path_dirname\<close> scans from the right as the library does: trailing slashes are
  skipped, the first character is never taken as a separator.
\<close>

definition path_basename :: "string \<Rightarrow> string" where
  "path_basename p =
     rev (takeWhile (\<lambda>c. c \<noteq> CHR ''/'') (dropWhile (\<lambda>c. c = CHR ''/'') (rev p)))"

definition path_extname :: "string \<Rightarrow> string" where
  "path_extname p =
     (let base = path_basename p;
          ext = CHR ''.'' # rev (takeWhile (\<lambda>c. c \<noteq> CHR ''.'') (rev base));
          pre = rev (drop 1 (dropWhile (\<lambda>c. c \<noteq> CHR ''.'') (rev base)))
      in if CHR ''.'' \<in> set base \<and> pre \<noteq> [] \<and> base \<noteq> ''..'' then ext else [])"

definition path_dirname :: "string \<Rightarrow> string" where
  "path_dirname p =
     (if p = [] then ''.''
      else
        (let hasRoot = (hd p = CHR ''/'');
             r = dropWhile (\<lambda>c. c \<noteq> CHR ''/'') (dropWhile (\<lambda>c. c = CHR ''/'') (rev (tl p)));
             fin = length r
         in if r = [] then (if hasRoot then ''/'' else ''.'')
            else if hasRoot \<and> fin = 1 then ''//''
            else take fin p))"

text \<open>
  \<open>normalizeString\<close>: empty and \<open>.\<close> segments are dropped, \<open>..\<close> removes the segment
  before it; above the root it is dropped for an absolute path and kept for a relative one.
\<close>

fun norm_segs :: "bool \<Rightarrow> string list \<Rightarrow> string list \<Rightarrow> string list" where
  "norm_segs allowAbove acc [] = acc"
| "norm_segs allowAbove acc (s # ss) =
     (if s = [] \<or> s = ''.'' then norm_segs allowAbove acc ss
      else if s = ''..'' then
        (if acc = [] \<or> last acc = ''..''
         then norm_segs allowAbove (if allowAbove then acc @ [''..''] else acc) ss
         else norm_segs allowAbove (butlast acc) ss)
      else norm_segs allowAbove (acc @ [s]) ss)"

definition path_normalize :: "string \<Rightarrow> string" where
  "path_normalize p =
     (if p = [] then ''.''
      else
        (let isAbsolute = (hd p = CHR ''/'');
             trailingSeparator = (last p = CHR ''/'');
             body = join_with ''/'' (norm_segs (\<not> isAbsolute) [] (split_on CHR ''/'' p))
         in if body = [] then (if isAbsolute then ''/'' else if trailingSeparator then ''./'' else ''.'')
            else (if isAbsolute then ''/'' else []) @ body @ (if trailingSeparator then ''/'' else [])))"

text \<open>
  \<open>path.join\<close> of two arguments: the non-empty ones are joined by a slash and normalised.
\<close>

definition path_join :: "string \<Rightarrow> string \<Rightarrow> string" where
  "path_join a b =
     (let parts = filter (\<lambda>x. x \<noteq> []) [a, b]
      in if parts = [] then ''.'' else path_normalize (join_with ''/'' parts))"

text \<open>
  \<open>path.resolve\<close>: the arguments are taken from the right until one is absolute, each
  followed by a slash; the result is normalised and has no trailing slash. The first
  argument is the working directory, so the result is absolute whenever that is.
\<close>

definition path_resolve :: "string list \<Rightarrow> string" where
  "path_resolve args =
     (let resolvedPath =
            foldr (\<lambda>p acc. if startsWith acc ''/'' \<or> p = [] then acc else p @ ''/'' @ acc) args [];
          resolvedAbsolute = startsWith resolvedPath ''/'';
          body = join_with ''/'' (norm_segs (\<not> resolvedAbsolute) [] (split_on CHR ''/'' resolvedPath))
      in if resolvedAbsolute then ''/'' @ body
         else if body = [] then ''.'' else body)"

text \<open>
  The file system: the regular files with their content, and the directories. The three
  calls the extraction makes are \<open>existsSync\<close>, \<open>mkdirSync\<close> with \<open>recursive: true\<close> and
  \<open>writeFileSync\<close>. The recursive \<open>mkdirSync\<close> throws when the path or one of its ancestors
  is a regular file, and creates every missing directory of the chain otherwise.
  \<open>writeFileSync\<close> throws on a directory and under a parent that is not a directory.
\<close>

type_synonym buffer = "8 word list"

record fs =
  files :: "string \<rightharpoonup> buffer"
  dirs :: "string set"

definition existsSync :: "string \<Rightarrow> fs \<Rightarrow> bool" where
  "existsSync p s = (files s p \<noteq> None \<or> p \<in> dirs s)"

definition dir_chain :: "string \<Rightarrow> string list" where
  "dir_chain p =
     (let segs = norm_segs False [] (split_on CHR ''/'' p)
      in map (\<lambda>k. ''/'' @ join_with ''/'' (take k segs)) [0 ..< Suc (length segs)])"

definition mkdirSync :: "string \<Rightarrow> fs \<Rightarrow> string + fs" where
  "mkdirSync p s =
     (if list_ex (\<lambda>q. files s q \<noteq> None) (dir_chain p)
      then Inl (''ENOTDIR: not a directory, mkdir '' @ quoted p)
      else Inr (s\<lparr>dirs := dirs s \<union> set (dir_chain p)\<rparr>))"

definition writeFileSync :: "string \<Rightarrow> buffer \<Rightarrow> fs \<Rightarrow> string + fs" where
  "writeFileSync p d s =
     (if p \<in> dirs s then Inl (''EISDIR: illegal operation on a directory, open '' @ quoted p)
      else if files s (path_dirname p) \<noteq> None then Inl (''ENOTDIR: not a directory, open '' @ quoted p)
      else if path_dirname p \<notin> dirs s then Inl (''ENOENT: no such file or directory, open '' @ quoted p)
      else Inr (s\<lparr>files := (files s)(p \<mapsto> d)\<rparr>))"

section \<open>The filename sanitizer (npm package sanitize-filename)\<close>

text \<open>
  \<open>sanitizeFilePath\<close> calls \<open>sanitize(component, { replacement: '_' })\<close> of the package
  \<open>sanitize-filename\<close> (1.6.3 in \<open>backend/package.json\<close>), which is a dependency and not a
  file of the repository. The model follows the package's published source: five
  replacements in a row,
  \<^item> the illegal characters \<open>/ ? < > \ : * | "\<close>, each replaced;
  \<^item> the control characters U+0000 to U+001F and U+0080 to U+009F, each replaced;
  \<^item> a name made of dots only, replaced as a whole;
  \<^item> a reserved Windows device name (\<open>con\<close>, \<open>prn\<close>, \<open>aux\<close>, \<open>nul\<close>, \<open>com0\<close> to \<open>com9\<close>,
    \<open>lpt0\<close> to \<open>lpt9\<close>, in any case, alone or followed by a dot and anything on the same
    line), replaced as a whole;
  \<^item> a trailing run of dots and spaces, replaced as a whole;
  then a truncation to 255 bytes of UTF-8. With a non-empty replacement the package runs
  the same pass a second time, with the empty replacement, on the result of the first.
\<close>

definition is_illegal :: "char \<Rightarrow> bool" where
  "is_illegal c = (c \<in> set ''/?<>:*|'' \<or> c = CHR 0x5C \<or> c = CHR 0x22)"

definition is_control :: "char \<Rightarrow> bool" where
  "is_control c = ((of_char c :: nat) < 32 \<or> (128 \<le> (of_char c :: nat) \<and> (of_char c :: nat) \<le> 159))"

definition rep_chars :: "(char \<Rightarrow> bool) \<Rightarrow> string \<Rightarrow> string \<Rightarrow> string" where
  "rep_chars P r s = concat (map (\<lambda>c. if P c then r else [c]) s)"

definition rep_reserved :: "string \<Rightarrow> string \<Rightarrow> string" where
  "rep_reserved r s = (if s \<noteq> [] \<and> list_all (\<lambda>c. c = CHR ''.'') s then r else s)"

definition device_names :: "string list" where
  "device_names =
     [''con'', ''prn'', ''aux'', ''nul'',
      ''com0'', ''com1'', ''com2'', ''com3'', ''com4'', ''com5'', ''com6'', ''com7'', ''com8'', ''com9'',
      ''lpt0'', ''lpt1'', ''lpt2'', ''lpt3'', ''lpt4'', ''lpt5'', ''lpt6'', ''lpt7'', ''lpt8'', ''lpt9'']"

text \<open>
  The case-insensitive match of the device names: only the letters A to Z fold onto the
  letters of the pattern. The dot of the pattern's tail matches any character but a line
  terminator.
\<close>

definition ascii_lower :: "char \<Rightarrow> char" where
  "ascii_lower c =
     (let n = (of_char c :: nat) in if 65 \<le> n \<and> n \<le> 90 then char_of (n + 32) else c)"

definition is_device_name :: "string \<Rightarrow> bool" where
  "is_device_name s =
     list_ex (\<lambda>d. startsWith (map ascii_lower s) d \<and>
                 (let rest = drop (length d) s
                  in rest = [] \<or>
                     (hd rest = CHR ''.'' \<and>
                      list_all (\<lambda>c. c \<noteq> CHR 0x0A \<and> c \<noteq> CHR 0x0D) (tl rest))))
             device_names"

definition rep_windows :: "string \<Rightarrow> string \<Rightarrow> string" where
  "rep_windows r s = (if is_device_name s then r else s)"

definition is_dot_space :: "char \<Rightarrow> bool" where
  "is_dot_space c = (c = CHR ''.'' \<or> c = CHR '' '')"

definition rep_trailing :: "string \<Rightarrow> string \<Rightarrow> string" where
  "rep_trailing r s =
     (if s \<noteq> [] \<and> is_dot_space (last s)
      then rev (dropWhile is_dot_space (rev s)) @ r else s)"

definition utf8_len :: "char \<Rightarrow> nat" where
  "utf8_len c = (if (of_char c :: nat) < 128 then 1 else 2)"

fun truncate_bytes :: "nat \<Rightarrow> string \<Rightarrow> string" where
  "truncate_bytes n [] = []"
| "truncate_bytes n (c # cs) =
     (if utf8_len c > n then []
      else if utf8_len c = n then [c]
      else c # truncate_bytes (n - utf8_len c) cs)"

definition sanitize_pass :: "string \<Rightarrow> string \<Rightarrow> string" where
  "sanitize_pass r s =
     truncate_bytes 255
       (rep_trailing r (rep_windows r (rep_reserved r (rep_chars is_control r (rep_chars is_illegal r s)))))"

definition sanitize_filename :: "string \<Rightarrow> string \<Rightarrow> string" where
  "sanitize_filename r s =
     (let output = sanitize_pass r s in if r = [] then output else sanitize_pass [] output)"

section \<open>Archive validation and extraction (ZipHandler, SecurityValidator)\<close>

text \<open>
  An entry of the opened archive, as the code reads it: \<open>entry.entryName\<close>,
  \<open>entry.isDirectory\<close>, the declared sizes \<open>entry.header.size\<close> and
  \<open>entry.header.compressedSize\<close>, and what \<open>entry.getData()\<close> does: it returns the bytes
  (\<open>Inr\<close>) or throws with a message (\<open>Inl\<close>). The archive library returns a buffer it
  allocated at the declared size; the record leaves the length of the bytes free, and the
  lemmas that need the bound state it.
\<close>

record ZipEntry =
  entryName :: string
  isDirectory :: bool
  header_size :: nat
  header_compressedSize :: nat
  getData :: "string + buffer"

datatype validation = Valid | Invalid string

definition maxExtractedSize :: nat where
  "maxExtractedSize = 100 * 1024 * 1024"

definition maxFiles :: nat where
  "maxFiles = 1000"

definition allowedExtensions :: "string list" where
  "allowedExtensions = [''.js'', ''.ts'', ''.json'', ''.md'', ''.txt'', ''.yml'', ''.yaml'', ''.csv'', ''.xml'']"

text \<open>
  The quotient of two sizes as JavaScript computes it. Division by zero does not throw:
  \<open>0 / 0\<close> is \<open>NaN\<close> and \<open>n / 0\<close> is \<open>Infinity\<close> for a positive \<open>n\<close>. A finite quotient is kept
  as the exact rational; the sizes are sums of at most 1000 unsigned 32-bit fields, and for
  such operands the rounding of the quotient to a double does not change its comparison
  with 100. Every comparison with \<open>NaN\<close> is false.
\<close>

datatype js_number = NaN | Infinity | Finite rat

definition js_div :: "nat \<Rightarrow> nat \<Rightarrow> js_number" where
  "js_div a b =
     (if b = 0 then (if a = 0 then NaN else Infinity)
      else Finite (of_nat a / of_nat b))"

fun js_gt :: "js_number \<Rightarrow> rat \<Rightarrow> bool" where
  "js_gt NaN y = False"
| "js_gt Infinity y = True"
| "js_gt (Finite x) y = (y < x)"

text \<open>
  The loop of \<open>validateZipContents\<close> over the entries, with its two running sums
  \<open>(totalUncompressedSize, totalCompressedSize)\<close>.
\<close>

fun zip_totals :: "ZipEntry list \<Rightarrow> nat \<times> nat \<Rightarrow> nat \<times> nat" where
  "zip_totals [] acc = acc"
| "zip_totals (entry # entries) (u, c) =
     zip_totals entries
       (if \<not> isDirectory entry then (u + header_size entry, c + header_compressedSize entry)
        else (u, c))"

definition compressionRatio :: "ZipEntry list \<Rightarrow> js_number" where
  "compressionRatio entries = (case zip_totals entries (0, 0) of (u, c) \<Rightarrow> js_div u c)"

definition validateZipContents :: "ZipEntry list \<Rightarrow> validation" where
  "validateZipContents entries =
     (if length entries = 0 then Invalid ''ZIP file is empty''
      else if length entries > maxFiles
        then Invalid (''ZIP contains too many files (max: '' @ show_nat maxFiles @ '')'')
      else
        (case zip_totals entries (0, 0) of
           (totalUncompressedSize, totalCompressedSize) \<Rightarrow>
             if js_gt (js_div totalUncompressedSize totalCompressedSize) 100
               then Invalid ''Suspicious compression ratio (possible zip bomb)''
             else if totalUncompressedSize > maxExtractedSize
               then Invalid (''Total uncompressed size exceeds limit ('' @ show_nat maxExtractedSize
                             @ '' bytes)'')
             else Valid))"

definition validateZipEntry :: "ZipEntry \<Rightarrow> validation" where
  "validateZipEntry entry =
     (let name = entryName entry
      in if str_includes name ''..'' \<or> str_includes name [CHR 0x5C] \<or> startsWith name ''/''
           then Invalid ''Path traversal attempt detected''
         else
           (let ext = toLowerCase (path_extname name)
            in if ext \<noteq> [] \<and> ext \<notin> set allowedExtensions
                 then Invalid (''File type not allowed: '' @ ext)
               else if header_size entry > 10 * 1024 * 1024 then Invalid ''File too large''
               else Valid))"

definition sanitizeFilePath :: "string \<Rightarrow> string" where
  "sanitizeFilePath filePath =
     (let components = map (sanitize_filename ''_'') (split_on CHR ''/'' filePath);
          sanitized = join_with ''/''
                        (filter (\<lambda>component. component \<noteq> [] \<and> component \<noteq> ''.'' \<and> component \<noteq> ''..'')
                                components)
      in if sanitized = [] then ''sanitized_file'' else sanitized)"

text \<open>
  The state of the extraction loop: the file system and the three accumulators of
  \<open>performExtraction\<close>.
\<close>

record loop_state =
  l_fs :: fs
  extractedFiles :: "string list"
  warnings :: "string list"
  totalSize :: nat

text \<open>
  The body of the loop for one entry. It returns the next state, or the message of an
  exception that leaves the loop: the \<open>mkdirSync\<close> for the parent directory stands outside
  the \<open>try\<close> block. Everything inside the \<open>try\<close> block (\<open>getData\<close>, \<open>writeFileSync\<close>, and the
  \<open>throw\<close> of the size check) ends in the \<open>catch\<close>, which appends a warning and lets the
  loop go on.
\<close>

definition extractEntry :: "bool \<Rightarrow> string \<Rightarrow> ZipEntry \<Rightarrow> loop_state \<Rightarrow> string + loop_state" where
  "extractEntry ow extractPath entry s =
     (if isDirectory entry then Inr s
      else
        (case validateZipEntry entry of
           Invalid why \<Rightarrow>
             Inr (s\<lparr>warnings := warnings s @ [''Skipped '' @ entryName entry @ '': '' @ why]\<rparr>)
         | Valid \<Rightarrow>
             (let sanitizedPath = sanitizeFilePath (entryName entry);
                  outputPath = path_join extractPath sanitizedPath
              in if existsSync outputPath (l_fs s) \<and> \<not> ow
                   then Inr (s\<lparr>warnings := warnings s
                                   @ [''Skipped '' @ entryName entry @ '': File already exists'']\<rparr>)
                 else
                   (let outputDir = path_dirname outputPath
                    in case (if \<not> existsSync outputDir (l_fs s) then mkdirSync outputDir (l_fs s)
                             else Inr (l_fs s)) of
                         Inl err \<Rightarrow> Inl err
                       | Inr fs1 \<Rightarrow>
                           Inr (case getData entry of
                                  Inl err \<Rightarrow>
                                    s\<lparr>l_fs := fs1,
                                       warnings := warnings s
                                         @ [''Failed to extract '' @ entryName entry @ '': '' @ err]\<rparr>
                                | Inr bytes \<Rightarrow>
                                    (case writeFileSync outputPath bytes fs1 of
                                       Inl err \<Rightarrow>
                                         s\<lparr>l_fs := fs1,
                                            warnings := warnings s
                                              @ [''Failed to extract '' @ entryName entry @ '': '' @ err]\<rparr>
                                     | Inr fs2 \<Rightarrow>
                                         (let s1 = s\<lparr>l_fs := fs2,
                                                      extractedFiles := extractedFiles s @ [sanitizedPath],
                                                      totalSize := totalSize s + length bytes\<rparr>
                                          in if totalSize s1 > maxExtractedSize
                                               then s1\<lparr>warnings := warnings s1
                                                      @ [''Failed to extract '' @ entryName entry @ '': ''
                                                         @ ''Total extracted size exceeds limit (''
                                                         @ show_nat maxExtractedSize @ '' bytes)'']\<rparr>
                                             else s1)))))))"

text \<open>
  The \<open>for\<close> loop: the state reached, and the message of the exception that ended the loop
  early, if one did.
\<close>

fun extractLoop :: "bool \<Rightarrow> string \<Rightarrow> ZipEntry list \<Rightarrow> loop_state \<Rightarrow> string option \<times> loop_state" where
  "extractLoop ow extractPath [] s = (None, s)"
| "extractLoop ow extractPath (entry # entries) s =
     (case extractEntry ow extractPath entry s of
        Inl err \<Rightarrow> (Some err, s)
      | Inr s' \<Rightarrow> extractLoop ow extractPath entries s')"

record ExtractResult =
  x_success :: bool
  x_message :: string
  x_extractedFiles :: "string list"
  x_totalFiles :: nat
  x_totalSize :: nat
  x_warnings :: "string list option"

record ExtractOptions =
  overwrite :: "bool option"
  preserve_structure :: "bool option"

text \<open>
  \<open>performExtraction\<close>. \<open>cwd\<close> is \<open>process.cwd()\<close>; \<open>opened\<close> is what
  \<open>new AdmZip(zipPath).getEntries()\<close> gives: the entries, or the message of the exception.
  The result is the file system left behind, with the \<open>ExtractResult\<close> returned (\<open>Inr\<close>) or
  the message of the exception thrown (\<open>Inl\<close>). The \<open>duration\<close> field is left out.
\<close>

definition extractRoot :: "string \<Rightarrow> string \<Rightarrow> string" where
  "extractRoot cwd extractTo = path_resolve [cwd, ''data'', extractTo]"

definition performExtraction ::
  "string \<Rightarrow> (string + ZipEntry list) \<Rightarrow> string \<Rightarrow> ExtractOptions \<Rightarrow> fs \<Rightarrow> fs \<times> (string + ExtractResult)" where
  "performExtraction cwd opened extractTo opts s =
     (let extractPath = extractRoot cwd extractTo
      in case (if \<not> existsSync extractPath s then mkdirSync extractPath s else Inr s) of
           Inl err \<Rightarrow> (s, Inl err)
         | Inr s1 \<Rightarrow>
             (case opened of
                Inl err \<Rightarrow> (s1, Inl err)
              | Inr entries \<Rightarrow>
                  (case validateZipContents entries of
                     Invalid why \<Rightarrow> (s1, Inl why)
                   | Valid \<Rightarrow>
                       (case extractLoop (overwrite opts = Some True) extractPath entries
                               \<lparr>l_fs = s1, extractedFiles = [], warnings = [], totalSize = 0\<rparr> of
                          (Some err, l) \<Rightarrow> (l_fs l, Inl err)
                        | (None, l) \<Rightarrow>
                            (l_fs l,
                             Inr \<lparr>x_success = True,
                                  x_message = ''Successfully extracted ''
                                     @ show_nat (length (extractedFiles l)) @ '' files'',
                                  x_extractedFiles = extractedFiles l,
                                  x_totalFiles = length entries,
                                  x_totalSize = totalSize l,
                                  x_warnings = (if length (warnings l) > 0 then Some (warnings l)
                                                else None)\<rparr>)))))"

text \<open>
  The uploaded file as \<open>validateFile\<close> and \<open>AdmZip\<close> see it: what \<open>fs.statSync\<close> gives
  (the size, or the message of the exception), what \<open>fs.readFileSync\<close> followed by
  \<open>fileTypeFromBuffer\<close> gives (the media type sniffed from the bytes, if any, or the message
  of the exception), and the outcome of opening it as an archive. It is read before
  anything is written.
\<close>

record ArchiveFile =
  a_size :: "string + nat"
  a_mime :: "string + string option"
  a_opened :: "string + ZipEntry list"

definition maxFileSize :: nat where
  "maxFileSize = 50 * 1024 * 1024"

definition allowedMimeTypes :: "string list" where
  "allowedMimeTypes = [''application/zip'', ''application/x-zip-compressed'']"

text \<open>
  The six \<open>dangerousPatterns\<close>, tested on a name: two dots, a leading slash, a backslash, a
  NUL, and the two case-insensitive substrings.
\<close>

definition dangerous :: "string \<Rightarrow> bool" where
  "dangerous name =
     (str_includes name ''..'' \<or> startsWith name ''/'' \<or> str_includes name [CHR 0x5C]
      \<or> str_includes name [CHR 0x00]
      \<or> str_includes (map ascii_lower name) ''<script''
      \<or> str_includes (map ascii_lower name) ''javascript:'')"

text \<open>
  \<open>validateFile\<close>: the checks in the order of the source. An exception of \<open>statSync\<close>,
  \<open>readFileSync\<close> or \<open>fileTypeFromBuffer\<close> ends in the \<open>catch\<close>, which answers with the
  reason "Security validation failed".
\<close>

definition validateFile :: "string \<Rightarrow> ArchiveFile option \<Rightarrow> validation" where
  "validateFile filePath file =
     (case file of
        None \<Rightarrow> Invalid ''File does not exist''
      | Some f \<Rightarrow>
          (case a_size f of
             Inl err \<Rightarrow> Invalid ''Security validation failed''
           | Inr sz \<Rightarrow>
               if sz > maxFileSize
                 then Invalid (''File size exceeds maximum allowed size of '' @ show_nat maxFileSize
                               @ '' bytes'')
               else
                 (case a_mime f of
                    Inl err \<Rightarrow> Invalid ''Security validation failed''
                  | Inr fileType \<Rightarrow>
                      if (case fileType of None \<Rightarrow> True | Some m \<Rightarrow> m \<notin> set allowedMimeTypes)
                        then Invalid ''Invalid file type''
                      else if dangerous (path_basename filePath)
                        then Invalid ''Filename contains dangerous patterns''
                      else Valid)))"

record extract_args =
  file_path :: string
  extract_to :: "string option"
  options :: "ExtractOptions option"

text \<open>
  \<open>extractZip\<close>. \<open>file\<close> is the file found at \<open>file_path\<close>, \<open>None\<close> when there is none. An
  exception of \<open>performExtraction\<close> ends in the \<open>catch\<close> of \<open>extractZip\<close>: success false and
  no \<open>data\<close>.
\<close>

definition extractZip ::
  "string \<Rightarrow> ArchiveFile option \<Rightarrow> extract_args \<Rightarrow> fs \<Rightarrow> fs \<times> ExtractResult ToolResult" where
  "extractZip cwd file args s =
     (let extract_to' = (case extract_to args of None \<Rightarrow> ''extracted'' | Some d \<Rightarrow> d);
          options' = (case options args of
                        None \<Rightarrow> \<lparr>overwrite = None, preserve_structure = None\<rparr> | Some opt \<Rightarrow> opt)
      in case file of
           None \<Rightarrow> (s, \<lparr>success = False, message = ''File not found: '' @ file_path args, data = None\<rparr>)
         | Some f \<Rightarrow>
             (case validateFile (file_path args) file of
                Invalid why \<Rightarrow>
                  (s, \<lparr>success = False, message = ''Security validation failed: '' @ why, data = None\<rparr>)
              | Valid \<Rightarrow>
                  (case performExtraction cwd (a_opened f) extract_to' options' s of
                     (s', Inl err) \<Rightarrow>
                       (s', \<lparr>success = False, message = ''Extraction failed: '' @ err, data = None\<rparr>)
                   | (s', Inr r) \<Rightarrow>
                       (s', \<lparr>success = x_success r, message = x_message r, data = Some r\<rparr>))))"

section \<open>Notions used to state the properties\<close>


text \<open>
  The declared sizes of the non-directory entries, summed.
\<close>

definition sumUncompressed :: "ZipEntry list \<Rightarrow> nat" where
  "sumUncompressed entries = sum_list (map header_size (filter (\<lambda>e. \<not> isDirectory e) entries))"

definition sumCompressed :: "ZipEntry list \<Rightarrow> nat" where
  "sumCompressed entries =
     sum_list (map header_compressedSize (filter (\<lambda>e. \<not> isDirectory e) entries))"



text \<open>
  A clean segment: not empty, not \<open>.\<close>, not \<open>..\<close>, and without a slash.
\<close>

definition clean_seg :: "string \<Rightarrow> bool" where
  "clean_seg c = (c \<noteq> [] \<and> c \<noteq> ''.'' \<and> c \<noteq> ''..'' \<and> CHR ''/'' \<notin> set c)"





subsection \<open>Example stores\<close>

definition empty_store :: store where
  "empty_store = \<lparr>contexts = [], persisted = Absent, logged = []\<rparr>"

definition one_store :: store where
  "one_store = fst (createContext ''id-1'' 100 100 IoOk ''payload.zip'' Zip 2048 (Some 3) empty_store)"

definition decided_store :: store where
  "decided_store =
     fst (markApproved 150 IoOk \<lparr>context_id = ''id-1'', approved = True, reason = None\<rparr> one_store)"


subsection \<open>Example archives\<close>

definition fs0 :: fs where
  "fs0 = \<lparr>files = Map.empty, dirs = {''/'', ''/srv'', ''/srv/app''}\<rparr>"

definition zfile :: "ZipEntry list \<Rightarrow> ArchiveFile" where
  "zfile es = \<lparr>a_size = Inr 1000, a_mime = Inr (Some ''application/zip''), a_opened = Inr es\<rparr>"

definition file_entry :: "string \<Rightarrow> nat \<Rightarrow> nat \<Rightarrow> buffer \<Rightarrow> ZipEntry" where
  "file_entry n sz csz bytes =
     \<lparr>entryName = n, isDirectory = False, header_size = sz, header_compressedSize = csz,
      getData = Inr bytes\<rparr>"


definition args0 :: extract_args where
  "args0 = \<lparr>file_path = ''/tmp/uploads/upload-1'', extract_to = None, options = None\<rparr>"

definition fs1 :: fs where
  "fs1 = fs0\<lparr>dirs := dirs fs0 \<union> set (dir_chain ''/srv/app/data/extracted'')\<rparr>"



section \<open>Properties of the context store\<close>

lemma map_get_map_set: "map_get (map_set kvs k v) k' = (if k' = k then Some v else map_get kvs k')"
  by (induction kvs) auto

lemma markApproved_keeps_absent:
  "map_get (contexts (fst (markApproved now w args st))) k = None \<longleftrightarrow> map_get (contexts st) k = None"
  by (auto simp: markApproved_def saveContexts_def Let_def map_get_map_set split: option.splits io.splits)

lemma createContext_absent:
  "createContext new_id t1 t2 w name ty sz fc st = (st', cid) \<Longrightarrow>
   cid = new_id \<and> (map_get (contexts st') k = None \<longleftrightarrow> (k \<noteq> new_id \<and> map_get (contexts st) k = None))"
  by (auto simp: createContext_def saveContexts_def Let_def map_get_map_set split: io.splits if_splits)

lemma run_ops_absent:
  "run_ops ops st0 = (st, ids) \<Longrightarrow> map_get (contexts st0) k = None \<Longrightarrow> k \<notin> set ids \<Longrightarrow>
   map_get (contexts st) k = None"
proof (induction ops st0 arbitrary: st ids rule: run_ops.induct)
  case (1 st0)
  then show ?case by simp
next
  case (2 new_id t1 t2 w name ty sz fc ops st0)
  obtain st1 cid where c: "createContext new_id t1 t2 w name ty sz fc st0 = (st1, cid)"
    by (cases "createContext new_id t1 t2 w name ty sz fc st0")
  obtain st2 ids2 where r: "run_ops ops st1 = (st2, ids2)"
    by (cases "run_ops ops st1")
  from "2.prems"(1) c r have eq: "st = st2" "ids = cid # ids2" by auto
  with "2.prems"(3) have "k \<noteq> cid" "k \<notin> set ids2" by auto
  moreover from createContext_absent[OF c, of k] \<open>k \<noteq> cid\<close> "2.prems"(2)
  have "map_get (contexts st1) k = None" by auto
  ultimately show ?case using "2.IH"[OF c[symmetric] r] eq by auto
next
  case (3 now w args ops st0)
  then show ?case by (simp add: markApproved_keeps_absent)
qed

lemma one_store_eq:
  "one_store = \<lparr>contexts =
      [(''id-1'',
        \<lparr>c_id = ''id-1'', c_name = ''payload.zip'', c_type = Zip,
           c_status = Pending, c_created = 100, c_updated = 100,
           c_size = 2048, c_fileCount = Some 3, c_metadata = None\<rparr>)],
      persisted =
        Written
         [\<lparr>c_id = ''id-1'', c_name = ''payload.zip'', c_type = Zip,
             c_status = Pending, c_created = 100, c_updated = 100,
             c_size = 2048, c_fileCount = Some 3, c_metadata = None\<rparr>],
      logged = [(''info'', ''Context created'')]\<rparr>"
  by (simp add: one_store_def createContext_def empty_store_def saveContexts_def map_values_def Let_def)

lemma one_store_run:
  "run_ops [OpCreate ''id-1'' 100 100 IoOk ''payload.zip'' Zip 2048 (Some 3)] empty_store
     = (one_store, [''id-1''])"
  by (simp add: one_store_def createContext_def Let_def)

lemma decided_lookup:
  "map_get (contexts decided_store) ''id-1'' =
     Some \<lparr>c_id = ''id-1'', c_name = ''payload.zip'', c_type = Zip,
         c_status = Approved, c_created = 100, c_updated = 150,
         c_size = 2048, c_fileCount = Some 3, c_metadata = None\<rparr>"
  by (simp add: decided_store_def one_store_eq markApproved_def saveContexts_def map_values_def
      verdict_def Let_def)







text \<open>
  Claim C6: for an id that no create call has returned, approve answers success false with
  the not-found message and leaves the store as it was: the collection, the persisted file
  and the log. The store starts from any loaded collection \<open>st0\<close> that does not hold the id
  and goes through any sequence of create and approve calls, none of whose create calls
  returned the id.
\<close>

theorem approve_unknown_id:
  assumes "map_get (contexts st0) cid = None" and "run_ops ops st0 = (st, ids)" and "cid \<notin> set ids"
  shows "markApproved now w \<lparr>context_id = cid, approved = a, reason = r\<rparr> st =
           (st, \<lparr>success = False, message = ''Context not found: '' @ cid, data = None\<rparr>)"
  using run_ops_absent[OF assms(2) assms(1) assms(3)] by (simp add: markApproved_def)

theorem approve_unknown_id_witness:
  "map_get (contexts empty_store) ''id-2'' = None \<and> ''id-2'' \<notin> set [''id-1''] \<and>
   markApproved 200 IoOk \<lparr>context_id = ''id-2'', approved = True, reason = Some ''ok''\<rparr> one_store =
     (one_store, \<lparr>success = False, message = ''Context not found: id-2'', data = None\<rparr>)"
proof -
  have h1: "map_get (contexts empty_store) ''id-2'' = None" by (simp add: empty_store_def)
  have h3: "''id-2'' \<notin> set [''id-1'']" by simp
  show ?thesis
    using approve_unknown_id[OF h1 one_store_run h3, of 200 IoOk True "Some ''ok''"] h1 h3 by simp
qed

text \<open>
  Claim C7, as stated: on a context already approved or rejected, a further approve call
  stores the reason under \<open>approvalReason\<close> whenever a reason is supplied. The guard
  \<open>if (reason)\<close> is a truthiness test, so a supplied but empty reason is not stored: here an
  approved context without metadata is rejected with the reason \<open>''''\<close>, and its metadata
  stays absent.
\<close>

theorem approve_empty_reason_counterexample:
  "c_status (the (map_get (contexts decided_store) ''id-1'')) = Approved \<and>
   (case markApproved 200 IoOk \<lparr>context_id = ''id-1'', approved = False, reason = Some ''''\<rparr> decided_store of
      (st', res) \<Rightarrow> success res \<and> c_metadata (the (map_get (contexts st') ''id-1'')) = None)"
  by (simp add: decided_lookup markApproved_def saveContexts_def map_values_def verdict_def
      map_get_map_set Let_def)

text \<open>
  Claim C7, amended: on a context whose status is already approved or rejected, a further
  approve call is not blocked. It succeeds, overwrites the status with the requested
  terminal value, sets \<open>updated\<close> to the current time, and stores a supplied non-empty
  reason in the metadata under the key \<open>approvalReason\<close> (keeping the other keys); an absent
  or empty reason leaves the metadata as it was. The record returned is the record stored.
\<close>

theorem approve_overwrites_terminal:
  assumes "map_get (contexts st) cid = Some c"
      and "c_status c = Approved \<or> c_status c = Rejected"
  shows "case markApproved now w \<lparr>context_id = cid, approved = a, reason = r\<rparr> st of
           (st', res) \<Rightarrow>
              success res = True
            \<and> message res = ''Context '' @ verdict a @ '' successfully''
            \<and> map_get (contexts st') cid = data res
            \<and> data res =
                Some (c\<lparr>c_status := (if a then Approved else Rejected),
                        c_updated := now,
                        c_metadata :=
                          (case r of
                             None \<Rightarrow> c_metadata c
                           | Some rs \<Rightarrow>
                               if rs = [] then c_metadata c
                               else Some (map_set (case c_metadata c of None \<Rightarrow> [] | Some m \<Rightarrow> m)
                                            ''approvalReason'' rs))\<rparr>)"
  using assms(1)
  by (auto simp: markApproved_def saveContexts_def Let_def map_get_map_set
      split: option.splits io.splits)

theorem approve_overwrites_terminal_witness:
  "c_status (the (map_get (contexts decided_store) ''id-1'')) = Approved \<and>
   snd (markApproved 200 IoOk \<lparr>context_id = ''id-1'', approved = False, reason = Some ''late''\<rparr>
          decided_store) =
     \<lparr>success = True, message = ''Context rejected successfully'',
      data = Some \<lparr>c_id = ''id-1'', c_name = ''payload.zip'', c_type = Zip,
         c_status = Rejected, c_created = 100, c_updated = 200,
         c_size = 2048, c_fileCount = Some 3,
         c_metadata = Some [(''approvalReason'', ''late'')]\<rparr>\<rparr>"
proof -
  have h2: "c_status \<lparr>c_id = ''id-1'', c_name = ''payload.zip'', c_type = Zip,
         c_status = Approved, c_created = 100, c_updated = 150,
         c_size = 2048, c_fileCount = Some 3, c_metadata = None\<rparr> = Approved \<or>
     c_status \<lparr>c_id = ''id-1'', c_name = ''payload.zip'', c_type = Zip,
         c_status = Approved, c_created = 100, c_updated = 150,
         c_size = 2048, c_fileCount = Some 3, c_metadata = None\<rparr> = Rejected" by simp
  show ?thesis
    using approve_overwrites_terminal[OF decided_lookup h2, where now = 200 and w = IoOk
        and a = False and r = "Some ''late''"]
    by (cases "markApproved 200 IoOk
          \<lparr>context_id = ''id-1'', approved = False, reason = Some ''late''\<rparr> decided_store")
       (simp add: verdict_def decided_lookup)
qed




section \<open>Lemmas on paths, the sanitizer and the extraction loop\<close>

lemma split_on_nonempty: "split_on d s \<noteq> []"
  by (induction s) (auto split: list.splits)

lemma split_on_no_sep: "w \<in> set (split_on d s) \<Longrightarrow> d \<notin> set w"
  by (induction s arbitrary: w) (auto split: list.splits if_splits)

lemma split_on_append: "split_on d (a @ d # b) = split_on d a @ split_on d b"
  by (induction a) (auto split: list.splits simp: split_on_nonempty)

lemma split_on_plain: "d \<notin> set w \<Longrightarrow> split_on d w = [w]"
  by (induction w) auto

lemma split_join:
  "cs \<noteq> [] \<Longrightarrow> list_all (\<lambda>c. CHR ''/'' \<notin> set c) cs \<Longrightarrow> split_on CHR ''/'' (join_with ''/'' cs) = cs"
proof (induction cs)
  case Nil then show ?case by simp
next
  case (Cons c cs)
  show ?case
  proof (cases cs)
    case Nil then show ?thesis using Cons.prems by (simp add: split_on_plain)
  next
    case (Cons y zs)
    then show ?thesis using Cons.IH Cons.prems
      split_on_append[of "CHR ''/''" c "join_with ''/'' (y # zs)"]
      by (simp add: split_on_plain)
  qed
qed



lemma join_with_last:
  "cs \<noteq> [] \<Longrightarrow> last cs \<noteq> [] \<Longrightarrow> join_with sep cs \<noteq> [] \<and> last (join_with sep cs) = last (last cs)"
  by (induction sep cs rule: join_with.induct) auto

lemma norm_segs_clean_append:
  "list_all clean_seg cs \<Longrightarrow> norm_segs False acc cs = acc @ cs"
  by (induction cs arbitrary: acc) (auto simp: clean_seg_def)

lemma norm_segs_out_clean:
  "list_all clean_seg acc \<Longrightarrow> list_all (\<lambda>c. CHR ''/'' \<notin> set c) cs \<Longrightarrow>
   list_all clean_seg (norm_segs False acc cs)"
proof (induction cs arbitrary: acc)
  case Nil then show ?case by simp
next
  case (Cons c cs)
  have bl: "list_all clean_seg (butlast acc)" using Cons.prems(1)
    by (metis in_set_butlastD list_all_iff)
  have tl: "list_all (\<lambda>c. CHR ''/'' \<notin> set c) cs" using Cons.prems(2) by simp
  have app: "c \<noteq> [] \<Longrightarrow> c \<noteq> ''.'' \<Longrightarrow> c \<noteq> ''..'' \<Longrightarrow> list_all clean_seg (acc @ [c])"
    using Cons.prems by (simp add: list_all_iff clean_seg_def)
  show ?case using Cons.IH[OF bl tl] Cons.IH[OF Cons.prems(1) tl] Cons.IH[OF app tl]
    by auto
qed


lemma startsWith_Cons1: "startsWith s [c] \<longleftrightarrow> (s \<noteq> [] \<and> hd s = c)"
  by (cases s) auto









lemma extractRoot_shape:
  assumes "startsWith cwd ''/''"
  shows "\<exists>rs. list_all clean_seg rs \<and> extractRoot cwd extractTo = ''/'' @ join_with ''/'' rs"
proof -
  let ?f = "\<lambda>p acc. if startsWith acc ''/'' \<or> p = [] then acc else p @ ''/'' @ acc"
  let ?rp = "foldr ?f [cwd, ''data'', extractTo] []"
  have cw: "cwd \<noteq> []" "hd cwd = CHR ''/''" using assms by (cases cwd; simp)+
  have abs: "startsWith ?rp ''/''"
    using cw by (auto simp: startsWith_Cons1)
  let ?rs = "norm_segs False [] (split_on CHR ''/'' ?rp)"
  have "list_all clean_seg ?rs"
    by (rule norm_segs_out_clean) (auto simp: list_all_iff dest: split_on_no_sep)
  moreover have "extractRoot cwd extractTo = ''/'' @ join_with ''/'' ?rs"
    using abs unfolding extractRoot_def path_resolve_def Let_def by simp
  ultimately show ?thesis by blast
qed

lemma clean_join_props:
  assumes "cs \<noteq> []" "list_all clean_seg cs"
  shows "join_with ''/'' cs \<noteq> []" "last (join_with ''/'' cs) \<noteq> CHR ''/''"
        "split_on CHR ''/'' (join_with ''/'' cs) = cs"
proof -
  have l: "last cs \<noteq> []" "CHR ''/'' \<notin> set (last cs)"
    using assms by (auto simp: list_all_iff clean_seg_def)
  show "join_with ''/'' cs \<noteq> []" using join_with_last[OF assms(1) l(1)] by simp
  have "last (join_with ''/'' cs) = last (last cs)" using join_with_last[OF assms(1) l(1)] by simp
  then show "last (join_with ''/'' cs) \<noteq> CHR ''/''" using l by (metis last_in_set)
  show "split_on CHR ''/'' (join_with ''/'' cs) = cs"
    using assms by (intro split_join) (auto simp: list_all_iff clean_seg_def)
qed





lemma mkdirSync_files: "mkdirSync p s = Inr s' \<Longrightarrow> files s' = files s \<and> dirs s' = dirs s \<union> set (dir_chain p)"
  by (auto simp: mkdirSync_def split: if_splits)









lemma zip_totals_sums:
  "zip_totals es (u, c) = (u + sumUncompressed es, c + sumCompressed es)"
  by (induction es arbitrary: u c) (auto simp: sumUncompressed_def sumCompressed_def)

lemma js_gt_div: "js_gt (js_div u c) 100 \<longleftrightarrow> 100 * c < u"
proof (cases "c = 0")
  case True then show ?thesis by (simp add: js_div_def)
next
  case False
  then have "(100 < (of_nat u :: rat) / of_nat c) \<longleftrightarrow> (100 * (of_nat c :: rat) < of_nat u)"
    by (simp add: pos_less_divide_eq)
  also have "\<dots> \<longleftrightarrow> (of_nat (100 * c) :: rat) < of_nat u" by simp
  also have "\<dots> \<longleftrightarrow> 100 * c < u" by (simp only: of_nat_less_iff)
  finally show ?thesis using False by (simp add: js_div_def)
qed

lemma show_nat_consts: "show_nat maxFiles = ''1000''" "show_nat maxExtractedSize = ''104857600''"
  "show_nat maxFileSize = ''52428800''"
  by (simp_all add: maxFiles_def maxExtractedSize_def maxFileSize_def show_nat.simps)

lemma validateZipContents_eq:
  "validateZipContents es =
     (if es = [] then Invalid ''ZIP file is empty''
      else if length es > 1000 then Invalid ''ZIP contains too many files (max: 1000)''
      else if 100 * sumCompressed es < sumUncompressed es
        then Invalid ''Suspicious compression ratio (possible zip bomb)''
      else if sumUncompressed es > 104857600
        then Invalid ''Total uncompressed size exceeds limit (104857600 bytes)''
      else Valid)"
  using js_gt_div[of "sumUncompressed es" "sumCompressed es"]
  by (simp add: validateZipContents_def zip_totals_sums show_nat_consts)
     (simp add: maxFiles_def maxExtractedSize_def)

text \<open>
  The running total of the loop grows by the length of what \<open>getData\<close> returns. When no
  entry returns more bytes than its header declares, the total stays below the declared
  sum, which the structural validation has bounded by the budget.
\<close>

lemma extractEntry_total:
  assumes "extractEntry ow xr e s = Inr s'"
      and "case getData e of Inl err \<Rightarrow> True | Inr b \<Rightarrow> length b \<le> header_size e"
  shows "totalSize s' \<le> totalSize s + (if isDirectory e then 0 else header_size e)"
  using assms
  by (auto simp: extractEntry_def Let_def split: if_splits validation.splits sum.splits)

lemma extractLoop_total:
  assumes "list_all (\<lambda>e. case getData e of Inl err \<Rightarrow> True | Inr b \<Rightarrow> length b \<le> header_size e) es"
  shows "extractLoop ow xr es s = (r, s') \<Longrightarrow> totalSize s' \<le> totalSize s + sumUncompressed es"
  using assms
proof (induction es arbitrary: s)
  case Nil
  then show ?case by (simp add: sumUncompressed_def)
next
  case (Cons e es)
  show ?case
  proof (cases "extractEntry ow xr e s")
    case (Inl err)
    then show ?thesis using Cons.prems by simp
  next
    case (Inr s1)
    then have loop: "extractLoop ow xr es s1 = (r, s')" using Cons.prems(1) by simp
    have e: "totalSize s1 \<le> totalSize s + (if isDirectory e then 0 else header_size e)"
      using extractEntry_total[OF Inr] Cons.prems(2) by simp
    have "totalSize s' \<le> totalSize s1 + sumUncompressed es"
      using Cons.IH[OF loop] Cons.prems(2) by simp
    then show ?thesis using e by (auto simp: sumUncompressed_def)
  qed
qed

lemma budget_never_exceeded:
  assumes "validateZipContents es = Valid"
      and "list_all (\<lambda>e. case getData e of Inl err \<Rightarrow> True | Inr b \<Rightarrow> length b \<le> header_size e) es"
      and "extractLoop ow xr es \<lparr>l_fs = s0, extractedFiles = [], warnings = [], totalSize = 0\<rparr> = (r, s')"
  shows "totalSize s' \<le> maxExtractedSize"
proof -
  have "sumUncompressed es \<le> 104857600"
    using assms(1) by (simp add: validateZipContents_eq split: if_splits)
  then show ?thesis using extractLoop_total[OF assms(2,3)] by (simp add: maxExtractedSize_def)
qed

section \<open>Evaluation of the examples\<close>

lemma root0: "extractRoot ''/srv/app'' ''extracted'' = ''/srv/app/data/extracted''"
  by (simp add: extractRoot_def path_resolve_def Let_def)

lemma chain0: "dir_chain ''/srv/app/data/extracted'' =
   [''/'', ''/srv'', ''/srv/app'', ''/srv/app/data'', ''/srv/app/data/extracted'']"
  by (simp add: dir_chain_def Let_def upt_rec)

lemma valid0: "validateFile ''/tmp/uploads/upload-1'' (Some (zfile es)) = Valid"
  by (simp add: validateFile_def zfile_def maxFileSize_def allowedMimeTypes_def path_basename_def
      dangerous_def ascii_lower_def Let_def)

lemma sums_single:
  "sumUncompressed [file_entry n sz csz b] = sz" "sumCompressed [file_entry n sz csz b] = csz"
  by (simp_all add: sumUncompressed_def sumCompressed_def file_entry_def)

lemma ensure_root_files:
  "(if \<not> existsSync p s then mkdirSync p s else Inr s) = Inr s1 \<Longrightarrow> files s1 = files s"
  by (auto split: if_splits dest: mkdirSync_files)

lemma sums_replicate:
  "sumUncompressed (replicate n (file_entry nm sz csz b)) = n * sz"
  "sumCompressed (replicate n (file_entry nm sz csz b)) = n * csz"
  by (simp_all add: sumUncompressed_def sumCompressed_def file_entry_def sum_list_replicate)

lemma opened_zfile: "a_opened (zfile es) = Inr es"
  by (simp add: zfile_def)

lemma exists_root0: "\<not> existsSync ''/srv/app/data/extracted'' fs0"
  by (simp add: existsSync_def fs0_def)

lemma mkdir_root0:
  "mkdirSync ''/srv/app/data/extracted'' fs0 =
     Inr (fs0\<lparr>dirs := dirs fs0 \<union> set (dir_chain ''/srv/app/data/extracted'')\<rparr>)"
  by (simp add: mkdirSync_def chain0 fs0_def)

lemma root_in_chain:
  assumes "startsWith cwd ''/''"
  shows "extractRoot cwd extractTo \<in> set (dir_chain (extractRoot cwd extractTo))"
proof -
  obtain rs where rs: "list_all clean_seg rs" "extractRoot cwd extractTo = ''/'' @ join_with ''/'' rs"
    using extractRoot_shape[OF assms] by blast
  have "norm_segs False [] (split_on CHR ''/'' (''/'' @ join_with ''/'' rs)) = rs"
  proof (cases "rs = []")
    case True then show ?thesis by simp
  next
    case False
    then show ?thesis using clean_join_props(3)[OF False rs(1)]
        norm_segs_clean_append[OF rs(1), of "[]"] by simp
  qed
  then have "dir_chain (''/'' @ join_with ''/'' rs)
      = map (\<lambda>k. ''/'' @ join_with ''/'' (take k rs)) [0 ..< Suc (length rs)]"
    by (simp add: dir_chain_def Let_def del: upt_Suc)
  moreover have "''/'' @ join_with ''/'' rs
      \<in> set (map (\<lambda>k. ''/'' @ join_with ''/'' (take k rs)) [0 ..< Suc (length rs)])"
  proof -
    have "length rs \<in> set [0 ..< Suc (length rs)]" by simp
    then have "(\<lambda>k. ''/'' @ join_with ''/'' (take k rs)) (length rs)
        \<in> (\<lambda>k. ''/'' @ join_with ''/'' (take k rs)) ` set [0 ..< Suc (length rs)]"
      by (rule imageI)
    then show ?thesis by (simp del: upt_Suc)
  qed
  ultimately show ?thesis using rs(2) by simp
qed














section \<open>Properties of archive validation and extraction\<close>

text \<open>
  Claim C9: in \<open>validateZipContents\<close>, when the compressed sizes of the non-directory
  entries sum to zero, the compression ratio is \<open>NaN\<close> for a zero uncompressed sum and
  \<open>Infinity\<close> for a positive one, and the ratio check rejects exactly when the uncompressed
  sum is positive. An archive of one to 1000 entries whose files are all zero-byte stored
  files passes the validation; one with a positive uncompressed sum over a zero compressed
  sum is rejected as a bomb.
\<close>

theorem ratio_check_zero_compressed:
  assumes "sumCompressed es = 0"
  shows "compressionRatio es = (if sumUncompressed es = 0 then NaN else Infinity)
       \<and> js_gt (compressionRatio es) 100 = (0 < sumUncompressed es)
       \<and> validateZipContents es =
           (if es = [] then Invalid ''ZIP file is empty''
            else if length es > 1000 then Invalid ''ZIP contains too many files (max: 1000)''
            else if 0 < sumUncompressed es then Invalid ''Suspicious compression ratio (possible zip bomb)''
            else Valid)"
proof -
  have r: "compressionRatio es = (if sumUncompressed es = 0 then NaN else Infinity)"
    using assms by (simp add: compressionRatio_def zip_totals_sums js_div_def)
  have v: "validateZipContents es =
           (if es = [] then Invalid ''ZIP file is empty''
            else if length es > 1000 then Invalid ''ZIP contains too many files (max: 1000)''
            else if 0 < sumUncompressed es then Invalid ''Suspicious compression ratio (possible zip bomb)''
            else Valid)"
    using assms by (simp add: validateZipContents_eq)
  show ?thesis using r v by simp
qed

theorem ratio_check_zero_compressed_witness:
  "sumCompressed [file_entry ''empty.txt'' 0 0 []] = 0
   \<and> compressionRatio [file_entry ''empty.txt'' 0 0 []] = NaN
   \<and> validateZipContents [file_entry ''empty.txt'' 0 0 []] = Valid
   \<and> sumCompressed [file_entry ''odd.txt'' 5 0 [1, 2, 3, 4, 5]] = 0
   \<and> compressionRatio [file_entry ''odd.txt'' 5 0 [1, 2, 3, 4, 5]] = Infinity
   \<and> validateZipContents [file_entry ''odd.txt'' 5 0 [1, 2, 3, 4, 5]]
        = Invalid ''Suspicious compression ratio (possible zip bomb)''"
  using ratio_check_zero_compressed[of "[file_entry ''empty.txt'' 0 0 []]"]
        ratio_check_zero_compressed[of "[file_entry ''odd.txt'' 5 0 [1, 2, 3, 4, 5]]"]
  by (simp add: sums_single)

text \<open>
  Claim C3, as stated: every archive whose non-directory entries sum to an uncompressed
  size of more than 100 times their compressed size is refused with a bomb-related message.
  The entry count is checked first: an archive of 1001 entries, each of 101 bytes declared
  for 1 byte compressed, is refused with the message of the file-count limit.
\<close>

theorem bomb_message_counterexample:
  "100 * sumCompressed (replicate 1001 (file_entry ''a.txt'' 101 1 []))
     < sumUncompressed (replicate 1001 (file_entry ''a.txt'' 101 1 []))
   \<and> extractZip ''/srv/app'' (Some (zfile (replicate 1001 (file_entry ''a.txt'' 101 1 [])))) args0 fs0
       = (fs0\<lparr>dirs := dirs fs0 \<union> set (dir_chain ''/srv/app/data/extracted'')\<rparr>,
          \<lparr>success = False,
           message = ''Extraction failed: ZIP contains too many files (max: 1000)'',
           data = None\<rparr>)"
  by (simp add: sums_replicate extractZip_def performExtraction_def args0_def valid0 root0
      exists_root0 mkdir_root0 validateZipContents_eq opened_zfile Let_def)

text \<open>
  Claim C3, amended: for every archive that opens and whose non-directory entries sum to an
  uncompressed size of more than 100 times their compressed size, \<open>extractZip\<close> returns
  success false without data and writes no regular file. The message is that of the first
  check that fails: the file-level gate; else the creation of the target directory; else,
  for more than 1000 entries, the file-count limit; else the suspicious compression ratio
  (possible zip bomb).
\<close>

theorem bomb_archive_rejected:
  assumes "a_opened f = Inr es" and "100 * sumCompressed es < sumUncompressed es"
  shows "case extractZip cwd (Some f) args s of
           (s', res) \<Rightarrow>
              success res = False \<and> data res = None \<and> files s' = files s \<and>
              message res =
                (case validateFile (file_path args) (Some f) of
                   Invalid why \<Rightarrow> ''Security validation failed: '' @ why
                 | Valid \<Rightarrow>
                     (let xr = extractRoot cwd (case extract_to args of None \<Rightarrow> ''extracted'' | Some d \<Rightarrow> d)
                      in case (if \<not> existsSync xr s then mkdirSync xr s else Inr s) of
                           Inl err \<Rightarrow> ''Extraction failed: '' @ err
                         | Inr s1 \<Rightarrow>
                             if length es > 1000
                             then ''Extraction failed: ZIP contains too many files (max: 1000)''
                             else ''Extraction failed: Suspicious compression ratio (possible zip bomb)''))"
proof -
  let ?xr = "extractRoot cwd (case extract_to args of None \<Rightarrow> ''extracted'' | Some d \<Rightarrow> d)"
  let ?mk = "if \<not> existsSync ?xr s then mkdirSync ?xr s else Inr s"
  have ne: "es \<noteq> []" using assms(2) by (auto simp: sumUncompressed_def)
  have v: "validateZipContents es =
      (if length es > 1000 then Invalid ''ZIP contains too many files (max: 1000)''
       else Invalid ''Suspicious compression ratio (possible zip bomb)'')"
    using assms(2) ne by (simp add: validateZipContents_eq)
  show ?thesis
  proof (cases "validateFile (file_path args) (Some f)")
    case (Invalid why)
    then show ?thesis by (simp add: extractZip_def Let_def)
  next
    case Valid
    show ?thesis
    proof (cases ?mk)
      case (Inl err)
      then show ?thesis using Valid by (simp add: extractZip_def performExtraction_def Let_def)
    next
      case (Inr s1)
      then show ?thesis using Valid assms(1) v ensure_root_files[OF Inr]
        by (simp add: extractZip_def performExtraction_def Let_def)
    qed
  qed
qed

theorem bomb_archive_rejected_witness:
  "100 * sumCompressed [file_entry ''a.txt'' 1000 1 []] < sumUncompressed [file_entry ''a.txt'' 1000 1 []]
   \<and> success (snd (extractZip ''/srv/app'' (Some (zfile [file_entry ''a.txt'' 1000 1 []])) args0 fs0)) = False
   \<and> message (snd (extractZip ''/srv/app'' (Some (zfile [file_entry ''a.txt'' 1000 1 []])) args0 fs0))
        = ''Extraction failed: Suspicious compression ratio (possible zip bomb)''
   \<and> files (fst (extractZip ''/srv/app'' (Some (zfile [file_entry ''a.txt'' 1000 1 []])) args0 fs0)) = files fs0"
proof -
  let ?es = "[file_entry ''a.txt'' 1000 1 []]"
  have h1: "a_opened (zfile ?es) = Inr ?es" by (simp add: zfile_def)
  have h2: "100 * sumCompressed ?es < sumUncompressed ?es" by (simp add: sums_single)
  show ?thesis
    using bomb_archive_rejected[OF h1 h2, where cwd = "''/srv/app''" and args = args0 and s = fs0] h2
    by (simp add: split_beta args0_def valid0 root0 exists_root0 mkdir_root0)
qed

text \<open>
  Claim C10: \<open>extractZip\<close> creates the resolved target directory, with its parents, before
  the structural validation of the archive. When the uploaded file passes the file-level
  gate, the target does not exist yet and can be created, an archive that the structural
  validation then refuses (empty, over the cap of 1000 entries, a bomb, over the size
  budget) gives success false, the target directory and its ancestors are directories
  afterwards, and no regular file has been written.
\<close>

theorem root_created_before_validation:
  assumes "startsWith cwd ''/''"
      and "validateFile (file_path args) (Some f) = Valid"
      and "xr = extractRoot cwd (case extract_to args of None \<Rightarrow> ''extracted'' | Some d \<Rightarrow> d)"
      and "\<not> existsSync xr s"
      and "mkdirSync xr s = Inr s1"
      and "a_opened f = Inr es"
      and "validateZipContents es = Invalid why"
  shows "extractZip cwd (Some f) args s =
           (s1, \<lparr>success = False, message = ''Extraction failed: '' @ why, data = None\<rparr>)
       \<and> xr \<in> dirs s1
       \<and> dirs s1 = dirs s \<union> set (dir_chain xr)
       \<and> files s1 = files s"
proof -
  have d: "files s1 = files s" "dirs s1 = dirs s \<union> set (dir_chain xr)"
    using mkdirSync_files[OF assms(5)] by simp_all
  have "xr \<in> set (dir_chain xr)" using root_in_chain[OF assms(1)] assms(3) by simp
  moreover have "extractZip cwd (Some f) args s =
           (s1, \<lparr>success = False, message = ''Extraction failed: '' @ why, data = None\<rparr>)"
    using assms(2,4,5,6,7) unfolding assms(3)
    by (simp add: extractZip_def performExtraction_def Let_def)
  ultimately show ?thesis using d by simp
qed

theorem root_created_before_validation_witness:
  "extractZip ''/srv/app'' (Some (zfile [])) args0 fs0 =
     (fs0\<lparr>dirs := dirs fs0 \<union> set (dir_chain ''/srv/app/data/extracted'')\<rparr>,
      \<lparr>success = False, message = ''Extraction failed: ZIP file is empty'', data = None\<rparr>)
   \<and> ''/srv/app/data/extracted'' \<notin> dirs fs0
   \<and> ''/srv/app/data/extracted'' \<in> dirs (fst (extractZip ''/srv/app'' (Some (zfile [])) args0 fs0))
   \<and> ''/srv/app/data'' \<in> dirs (fst (extractZip ''/srv/app'' (Some (zfile [])) args0 fs0))
   \<and> files (fst (extractZip ''/srv/app'' (Some (zfile [])) args0 fs0)) = files fs0"
proof -
  have h1: "startsWith ''/srv/app'' ''/''" by simp
  have h2: "validateFile (file_path args0) (Some (zfile [])) = Valid" by (simp add: args0_def valid0)
  have h3: "''/srv/app/data/extracted''
      = extractRoot ''/srv/app'' (case extract_to args0 of None \<Rightarrow> ''extracted'' | Some d \<Rightarrow> d)"
    by (simp add: args0_def root0)
  have h6: "a_opened (zfile []) = Inr []" by (simp add: zfile_def)
  have h7: "validateZipContents [] = Invalid ''ZIP file is empty''" by (simp add: validateZipContents_eq)
  show ?thesis
    using root_created_before_validation[OF h1 h2 h3 exists_root0 mkdir_root0 h6 h7]
    by (simp add: chain0 fs0_def)
qed




section \<open>Lemmas on the filename sanitizer\<close>







lemma rep_chars_empty: "rep_chars P [] s = filter (\<lambda>c. \<not> P c) s"
  by (induction s) (auto simp: rep_chars_def)




























section \<open>Properties of the entry-name sanitizer\<close>




end
